theory Spec2Isabelle
  imports Complex_Main "HOL-Library.Sublist"
begin

section \<open>Renovation allocation: the model builder and the solution formatter\<close>

text \<open>
  A shallow embedding of \<^verbatim>\<open>src/main.go\<close>: the part of \<^verbatim>\<open>solver\<close> that builds the
  mixed integer program (lines 65 to 109), the rest of \<^verbatim>\<open>solver\<close> (lines 111 to 145)
  and \<^verbatim>\<open>format\<close> (lines 148 to 182).
\<close>

subsection \<open>Numbers\<close>

text \<open>
  A \<^verbatim>\<open>float64\<close> is either a finite value, which is a rational number and is held
  here as the real number it denotes, or one of the two infinities, or a NaN. Costs and
  effects are only ever copied by the program. The two places where the program computes
  with such a value are the conversion \<^verbatim>\<open>float64(input.Budget)\<close> and the test
  \<^verbatim>\<open>int(math.Round(x)) < 1\<close>.
\<close>

datatype float64 = Finite real | PosInf | NegInf | NaN

text \<open>
  \<^verbatim>\<open>math.Round\<close> returns the nearest integer, rounding half away from zero, and
  leaves infinities and NaN as they are. On a finite \<^verbatim>\<open>float64\<close> its result is exact.
\<close>

definition round_half_away :: "real \<Rightarrow> int" where
  "round_half_away r = (if r < 0 then - \<lfloor>- r + 1 / 2\<rfloor> else \<lfloor>r + 1 / 2\<rfloor>)"

fun math_Round :: "float64 \<Rightarrow> float64" where
  "math_Round (Finite r) = Finite (of_int (round_half_away r))"
| "math_Round PosInf = PosInf"
| "math_Round NegInf = NegInf"
| "math_Round NaN = NaN"

text \<open>
  The conversion \<^verbatim>\<open>int(x)\<close> of a \<^verbatim>\<open>float64\<close> discards the fraction (truncation
  towards zero). \<^verbatim>\<open>int\<close> has 64 bits on the platforms the program is built for. When
  the truncated value is not a 64-bit signed integer, or \<^verbatim>\<open>x\<close> is an infinity or a
  NaN, the language leaves the result to the implementation: the function \<open>impl\<close>
  stands for that choice, and every theorem below holds for each \<open>impl\<close>.
\<close>

definition truncate_real :: "real \<Rightarrow> int" where
  "truncate_real r = (if r < 0 then \<lceil>r\<rceil> else \<lfloor>r\<rfloor>)"

definition fits_int64 :: "int \<Rightarrow> bool" where
  "fits_int64 n \<longleftrightarrow> - (2 ^ 63) \<le> n \<and> n < 2 ^ 63"

fun go_int :: "(float64 \<Rightarrow> int) \<Rightarrow> float64 \<Rightarrow> int" where
  "go_int impl (Finite r) =
     (if fits_int64 (truncate_real r) then truncate_real r else impl (Finite r))"
| "go_int impl x = impl x"

text \<open>
  The conversion \<^verbatim>\<open>float64(n)\<close> of an \<^verbatim>\<open>int\<close> rounds to the nearest value with a
  53-bit significand, ties to the even significand. For \<open>\<bar>n\<bar> \<le> 2 ^ 64\<close>, which covers
  every 64-bit \<^verbatim>\<open>int\<close>, at most 11 low bits are dropped.
\<close>

definition dropped_bits :: "int \<Rightarrow> nat" where
  "dropped_bits a = length (filter (\<lambda>s. 2 ^ (53 + s) \<le> a) [0..<11])"

definition float64_of_int :: "int \<Rightarrow> float64" where
  "float64_of_int n =
     (let a = \<bar>n\<bar>; s = dropped_bits a; q = a div 2 ^ s; r = a mod 2 ^ s;
          q' = (if 2 * r > 2 ^ s \<or> (2 * r = 2 ^ s \<and> odd q) then q + 1 else q)
      in Finite (of_int (sgn n * q' * 2 ^ s)))"

subsection \<open>The data of the program\<close>

text \<open>
  The two anonymous structs inside \<^verbatim>\<open>input\<close> are the records \<open>renovation\<close> and
  \<open>property\<close>; their fields carry a prefix, since \<^verbatim>\<open>ID\<close>, \<^verbatim>\<open>Cost\<close> and
  \<^verbatim>\<open>Effect\<close> occur in several structs.
\<close>

record renovation =
  Renovation_ID :: string
  Renovation_Effect :: float64
  Renovation_Cost :: float64

record property =
  Property_ID :: string
  Property_Renovations :: "renovation list"

record input =
  Properties :: "property list"
  Budget :: int

record assignments =
  Property :: string
  RenovationID :: string
  Cost :: float64
  Effect :: float64

text \<open>
  A nil slice and an empty slice are both the empty list: the program never tells them
  apart, and both are omitted from the JSON output.
\<close>

record solution =
  Assignments :: "assignments list"

subsection \<open>The modelling interface of the \<^verbatim>\<open>mip\<close> package\<close>

text \<open>
  Modelled from the spec: the package \<^verbatim>\<open>github.com/nextmv-io/sdk/mip\<close> is not part of
  the sources. Section 6 of the specification describes what the solver accepts: a model
  made of variables, linear constraints and a linear objective with a sense. The model
  below records exactly what the calls of the program put into it, in the order of the
  calls. A variable is known by its position of creation; \<open>NilVar\<close> is the nil
  interface value that \<^verbatim>\<open>make([]mip.Var, n)\<close> fills a new slice with. A constraint
  handle (the pointer that \<^verbatim>\<open>NewConstraint\<close> returns) is the position of the
  constraint in the model.
\<close>

datatype var_kind = BoolVar | IntVar | FloatVar

datatype mip_var = NilVar | Var nat var_kind

datatype sense = LessThanOrEqual | Equal | GreaterThanOrEqual

record mip_constraint =
  Sense :: sense
  RightHandSide :: float64
  Terms :: "(float64 \<times> mip_var) list"

record mip_objective =
  IsMaximize :: bool
  ObjectiveTerms :: "(float64 \<times> mip_var) list"

record mip_model =
  Vars :: "mip_var list"
  Objective :: mip_objective
  Constraints :: "mip_constraint list"

definition NewModel :: mip_model where
  "NewModel = \<lparr>Vars = [], Objective = \<lparr>IsMaximize = False, ObjectiveTerms = []\<rparr>,
     Constraints = []\<rparr>"

definition SetMaximize :: "mip_model \<Rightarrow> mip_model" where
  "SetMaximize m = m\<lparr>Objective := (Objective m)\<lparr>IsMaximize := True\<rparr>\<rparr>"

definition NewConstraint :: "mip_model \<Rightarrow> sense \<Rightarrow> float64 \<Rightarrow> mip_model \<times> nat" where
  "NewConstraint m s rhs =
     (m\<lparr>Constraints := Constraints m @ [\<lparr>Sense = s, RightHandSide = rhs, Terms = []\<rparr>]\<rparr>,
      length (Constraints m))"

definition NewBool :: "mip_model \<Rightarrow> mip_model \<times> mip_var" where
  "NewBool m =
     (m\<lparr>Vars := Vars m @ [Var (length (Vars m)) BoolVar]\<rparr>, Var (length (Vars m)) BoolVar)"

definition Objective_NewTerm :: "mip_model \<Rightarrow> float64 \<Rightarrow> mip_var \<Rightarrow> mip_model" where
  "Objective_NewTerm m c v =
     m\<lparr>Objective := (Objective m)\<lparr>ObjectiveTerms := ObjectiveTerms (Objective m) @ [(c, v)]\<rparr>\<rparr>"

definition add_term :: "float64 \<Rightarrow> mip_var \<Rightarrow> mip_constraint \<Rightarrow> mip_constraint" where
  "add_term c v k = k\<lparr>Terms := Terms k @ [(c, v)]\<rparr>"

definition Constraint_NewTerm :: "mip_model \<Rightarrow> nat \<Rightarrow> float64 \<Rightarrow> mip_var \<Rightarrow> mip_model" where
  "Constraint_NewTerm m h c v =
     m\<lparr>Constraints := (Constraints m)[h := add_term c v (Constraints m ! h)]\<rparr>"

text \<open>
  Modelled from the spec: a solver result (\<^verbatim>\<open>mip.Solution\<close>) exposes a status and a
  value for each variable (section 6). The program asks it three things.
\<close>

record mip_solution =
  IsOptimal :: bool
  IsSubOptimal :: bool
  Value :: "mip_var \<Rightarrow> float64"

subsection \<open>The variable index: a map from property ID to a slice of variables\<close>

datatype go_panic = IndexOutOfRange

type_synonym var_index = "string \<rightharpoonup> mip_var list"

text \<open>
  \<^verbatim>\<open>index[id][i]\<close> read: a missing key yields the nil slice, and indexing a slice at or
  beyond its length panics.
\<close>

definition index_read :: "var_index \<Rightarrow> string \<Rightarrow> nat \<Rightarrow> go_panic + mip_var" where
  "index_read idx k i =
     (case idx k of
        None \<Rightarrow> Inl IndexOutOfRange
      | Some xs \<Rightarrow> if i < length xs then Inr (xs ! i) else Inl IndexOutOfRange)"

text \<open>\<^verbatim>\<open>index[id][i] = v\<close>: the same check, then the slot of the slice is overwritten.\<close>

definition index_write :: "var_index \<Rightarrow> string \<Rightarrow> nat \<Rightarrow> mip_var \<Rightarrow> go_panic + var_index" where
  "index_write idx k i v =
     (case idx k of
        None \<Rightarrow> Inl IndexOutOfRange
      | Some xs \<Rightarrow> if i < length xs then Inr (idx(k \<mapsto> xs[i := v])) else Inl IndexOutOfRange)"

subsection \<open>\<^verbatim>\<open>format\<close>\<close>

text \<open>
  The test of lines 161 to 163, negated: the variable counts as assigned unless
  \<^verbatim>\<open>int(math.Round(solverSolution.Value(v))) < 1\<close>.
\<close>

definition is_assigned :: "(float64 \<Rightarrow> int) \<Rightarrow> mip_solution \<Rightarrow> mip_var \<Rightarrow> bool" where
  "is_assigned impl sol v \<longleftrightarrow> \<not> go_int impl (math_Round (Value sol v)) < 1"

text \<open>Lines 169 to 174. \<^verbatim>\<open>input.Properties[i]\<close> is the \<^verbatim>\<open>property\<close> of the loop.\<close>

definition make_assignment :: "property \<Rightarrow> renovation \<Rightarrow> assignments" where
  "make_assignment p r =
     \<lparr>Property = Property_ID p, RenovationID = Renovation_ID r,
      Cost = Renovation_Cost r, Effect = Renovation_Effect r\<rparr>"

text \<open>
  The inner loop (lines 159 to 176), from position \<open>j\<close> on, over the renovations that
  are left; \<open>assigned\<close> is the slice built so far.
\<close>

fun format_renovations ::
  "(float64 \<Rightarrow> int) \<Rightarrow> mip_solution \<Rightarrow> var_index \<Rightarrow> property \<Rightarrow> nat \<Rightarrow> renovation list \<Rightarrow>
   assignments list \<Rightarrow> go_panic + assignments list" where
  "format_renovations impl sol idx p j [] assigned = Inr assigned"
| "format_renovations impl sol idx p j (r # rs) assigned =
     (case index_read idx (Property_ID p) j of
        Inl e \<Rightarrow> Inl e
      | Inr v \<Rightarrow>
          if \<not> is_assigned impl sol v
          then format_renovations impl sol idx p (Suc j) rs assigned
          else format_renovations impl sol idx p (Suc j) rs (assigned @ [make_assignment p r]))"

text \<open>The outer loop (lines 158 to 177).\<close>

fun format_properties ::
  "(float64 \<Rightarrow> int) \<Rightarrow> mip_solution \<Rightarrow> var_index \<Rightarrow> property list \<Rightarrow> assignments list \<Rightarrow>
   go_panic + assignments list" where
  "format_properties impl sol idx [] assigned = Inr assigned"
| "format_properties impl sol idx (p # ps) assigned =
     (case format_renovations impl sol idx p 0 (Property_Renovations p) assigned of
        Inl e \<Rightarrow> Inl e
      | Inr assigned' \<Rightarrow> format_properties impl sol idx ps assigned')"

definition format ::
  "(float64 \<Rightarrow> int) \<Rightarrow> input \<Rightarrow> mip_solution \<Rightarrow> var_index \<Rightarrow> go_panic + solution" where
  "format impl inp sol idx =
     (if \<not> IsOptimal sol \<and> \<not> IsSubOptimal sol then Inr \<lparr>Assignments = []\<rparr>
      else case format_properties impl sol idx (Properties inp) [] of
             Inl e \<Rightarrow> Inl e
           | Inr assigned \<Rightarrow> Inr \<lparr>Assignments = assigned\<rparr>)"

subsection \<open>\<^verbatim>\<open>solver\<close>: building the model (lines 65 to 109)\<close>

text \<open>
  The inner loop (lines 87 to 108) for the property with ID \<open>pid\<close>, from position
  \<open>i\<close> on. \<open>bc\<close> is the budget constraint and \<open>cc\<close> the count constraint of the
  property. The slot \<^verbatim>\<open>propertyRenovationVariables[property.ID][i]\<close> is written once
  and then read for each of the three terms; nothing changes it in between, so it is read
  once here.
\<close>

fun renovation_loop ::
  "string \<Rightarrow> nat \<Rightarrow> nat \<Rightarrow> nat \<Rightarrow> renovation list \<Rightarrow> mip_model \<times> var_index \<Rightarrow>
   go_panic + mip_model \<times> var_index" where
  "renovation_loop pid bc cc i [] st = Inr st"
| "renovation_loop pid bc cc i (r # rs) (m, idx) =
     (let (m1, b) = NewBool m in
      case index_write idx pid i b of
        Inl e \<Rightarrow> Inl e
      | Inr idx1 \<Rightarrow>
          (case index_read idx1 pid i of
             Inl e \<Rightarrow> Inl e
           | Inr v \<Rightarrow>
               let m2 = Objective_NewTerm m1 (Renovation_Effect r) v;
                   m3 = Constraint_NewTerm m2 bc (Renovation_Cost r) v;
                   m4 = Constraint_NewTerm m3 cc (Finite 1) v
               in renovation_loop pid bc cc (Suc i) rs (m4, idx1)))"

text \<open>The outer loop (lines 79 to 109).\<close>

fun property_loop ::
  "nat \<Rightarrow> property list \<Rightarrow> mip_model \<times> var_index \<Rightarrow> go_panic + mip_model \<times> var_index" where
  "property_loop bc [] st = Inr st"
| "property_loop bc (p # ps) (m, idx) =
     (let idx1 = idx(Property_ID p \<mapsto> replicate (length (Property_Renovations p)) NilVar);
          (m1, cc) = NewConstraint m LessThanOrEqual (Finite 3)
      in case renovation_loop (Property_ID p) bc cc 0 (Property_Renovations p) (m1, idx1) of
           Inl e \<Rightarrow> Inl e
         | Inr st \<Rightarrow> property_loop bc ps st)"

definition solver_model :: "input \<Rightarrow> go_panic + mip_model \<times> var_index" where
  "solver_model inp =
     (let m = SetMaximize NewModel;
          (m1, budgetConstraint) = NewConstraint m LessThanOrEqual (float64_of_int (Budget inp))
      in property_loop budgetConstraint (Properties inp) (m1, Map.empty))"

subsection \<open>\<^verbatim>\<open>solver\<close>: solving and formatting (lines 111 to 145)\<close>

record limits =
  Duration :: int

record options =
  Limits :: limits

datatype verbosity = Off | Low | Medium | High

text \<open>
  Modelled from the spec: the solver engine and the reporting layer are outside the
  sources (sections 1 and 6). The calls that can fail act on a world \<open>'w\<close> that they
  may read and change, so that a second call need not answer as the first did; \<open>'e\<close>
  is the type of their errors, \<open>'h\<close> a solver, \<open>'so\<close> a bundle of solve options and
  \<open>'st\<close> the statistics of the output envelope.
\<close>

record ('w, 'e, 'h, 'so, 'st) mip_env =
  NewSolver :: "string \<Rightarrow> mip_model \<Rightarrow> 'w \<Rightarrow> ('e + 'h) \<times> 'w"
  NewSolveOptions :: "'so"
  SetMaximumDuration :: "'so \<Rightarrow> int \<Rightarrow> 'w \<Rightarrow> ('e + 'so) \<times> 'w"
  SetMIPGapRelative :: "'so \<Rightarrow> float64 \<Rightarrow> 'w \<Rightarrow> ('e + 'so) \<times> 'w"
  SetVerbosity :: "'so \<Rightarrow> verbosity \<Rightarrow> 'so"
  Solve :: "'h \<Rightarrow> 'so \<Rightarrow> 'w \<Rightarrow> ('e + mip_solution) \<times> 'w"
  Statistics :: "mip_solution \<Rightarrow> 'st"
  WithCustom :: "'st \<Rightarrow> mip_model \<Rightarrow> mip_solution \<Rightarrow> 'st"

text \<open>
  The output envelope \<^verbatim>\<open>schema.Output\<close>; \<open>empty_Output\<close> is its zero value
  \<^verbatim>\<open>schema.Output{}\<close>.
\<close>

record 'st schema_Output =
  Output_Options :: "options option"
  Output_Solutions :: "solution list"
  Output_Statistics :: "'st option"

definition empty_Output :: "'st schema_Output" where
  "empty_Output = \<lparr>Output_Options = None, Output_Solutions = [], Output_Statistics = None\<rparr>"

text \<open>
  Modelled from the spec: \<^verbatim>\<open>mip.Format\<close> wraps the options, the formatted solution and
  the statistics of the solver result into the envelope (section 6).
\<close>

definition mip_Format ::
  "('w, 'e, 'h, 'so, 'st) mip_env \<Rightarrow> options \<Rightarrow> solution \<Rightarrow> mip_solution \<Rightarrow> 'st schema_Output" where
  "mip_Format env opts s sol =
     \<lparr>Output_Options = Some opts, Output_Solutions = [s],
      Output_Statistics = Some (Statistics env sol)\<rparr>"

text \<open>
  The function returns a pair of an output and an error (\<open>None\<close> is \<^verbatim>\<open>nil\<close>), or
  panics; the world after the call comes with it.
\<close>

definition solver ::
  "('w, 'e, 'h, 'so, 'st) mip_env \<Rightarrow> (float64 \<Rightarrow> int) \<Rightarrow> input \<Rightarrow> options \<Rightarrow> 'w \<Rightarrow>
   (go_panic + 'st schema_Output \<times> 'e option) \<times> 'w" where
  "solver env impl inp opts w =
     (case solver_model inp of
        Inl p \<Rightarrow> (Inl p, w)
      | Inr (m, propertyRenovationVariables) \<Rightarrow>
          (case NewSolver env ''highs'' m w of
             (Inl err, w1) \<Rightarrow> (Inr (empty_Output, Some err), w1)
           | (Inr slv, w1) \<Rightarrow>
               (case SetMaximumDuration env (NewSolveOptions env) (Duration (Limits opts)) w1 of
                  (Inl err, w2) \<Rightarrow> (Inr (empty_Output, Some err), w2)
                | (Inr so1, w2) \<Rightarrow>
                    (case SetMIPGapRelative env so1 (Finite 0) w2 of
                       (Inl err, w3) \<Rightarrow> (Inr (empty_Output, Some err), w3)
                     | (Inr so2, w3) \<Rightarrow>
                         (case Solve env slv (SetVerbosity env so2 Off) w3 of
                            (Inl err, w4) \<Rightarrow> (Inr (empty_Output, Some err), w4)
                          | (Inr sol, w4) \<Rightarrow>
                              (case format impl inp sol propertyRenovationVariables of
                                 Inl p \<Rightarrow> (Inl p, w4)
                               | Inr s \<Rightarrow>
                                   let output = mip_Format env opts s sol;
                                       output' = output\<lparr>Output_Statistics :=
                                         map_option (\<lambda>st. WithCustom env st m sol)
                                           (Output_Statistics output)\<rparr>
                                   in (Inr (output', None), w4)))))))"

subsection \<open>What the specification says of the model and of a solver result\<close>

definition new_vars :: "nat \<Rightarrow> nat \<Rightarrow> mip_var list" where
  "new_vars b n = map (\<lambda>k. Var k BoolVar) [b..<b + n]"

text \<open>
  The variables of the model in blocks, one block per property in input order, numbered
  from \<open>b\<close> on in the order of creation.
\<close>

fun var_blocks :: "nat \<Rightarrow> property list \<Rightarrow> mip_var list list" where
  "var_blocks b [] = []"
| "var_blocks b (p # ps) =
     new_vars b (length (Property_Renovations p))
       # var_blocks (b + length (Property_Renovations p)) ps"

definition add_terms :: "(float64 \<times> mip_var) list \<Rightarrow> mip_constraint \<Rightarrow> mip_constraint" where
  "add_terms ts k = k\<lparr>Terms := Terms k @ ts\<rparr>"

text \<open>
  The model after the inner loop has run over the renovations \<open>rs\<close>: a new variable
  for each, with a term in the objective, in the constraint \<open>bc\<close> and in the
  constraint \<open>cc\<close>.
\<close>

definition with_block :: "nat \<Rightarrow> nat \<Rightarrow> renovation list \<Rightarrow> mip_model \<Rightarrow> mip_model" where
  "with_block bc cc rs m =
     (let vs = new_vars (length (Vars m)) (length rs)
      in \<lparr>Vars = Vars m @ vs,
          Objective = \<lparr>IsMaximize = IsMaximize (Objective m),
            ObjectiveTerms = ObjectiveTerms (Objective m) @ zip (map Renovation_Effect rs) vs\<rparr>,
          Constraints = (Constraints m)
            [bc := add_terms (zip (map Renovation_Cost rs) vs) (Constraints m ! bc),
             cc := add_terms (map (Pair (Finite 1)) vs) (Constraints m ! cc)]\<rparr>)"

definition all_renovations :: "input \<Rightarrow> renovation list" where
  "all_renovations inp = concat (map Property_Renovations (Properties inp))"

definition count_constraint :: "mip_var list \<Rightarrow> mip_constraint" where
  "count_constraint vs =
     \<lparr>Sense = LessThanOrEqual, RightHandSide = Finite 3, Terms = map (Pair (Finite 1)) vs\<rparr>"

text \<open>
  The model of section 4.1: one maximisation objective with a term per renovation
  (its effect), the budget constraint with a term per renovation (its cost), and one
  count constraint per property with a term per renovation of that property.
\<close>

definition spec_model :: "input \<Rightarrow> mip_model" where
  "spec_model inp =
     (let blocks = var_blocks 0 (Properties inp); vs = concat blocks
      in \<lparr>Vars = vs,
          Objective = \<lparr>IsMaximize = True,
            ObjectiveTerms = zip (map Renovation_Effect (all_renovations inp)) vs\<rparr>,
          Constraints =
            \<lparr>Sense = LessThanOrEqual, RightHandSide = float64_of_int (Budget inp),
             Terms = zip (map Renovation_Cost (all_renovations inp)) vs\<rparr>
            # map count_constraint blocks\<rparr>)"

text \<open>
  The variable index after the loop: each property stores its block under its ID, in
  input order, so a later property with the same ID replaces the block of an earlier one.
\<close>

fun store_blocks :: "var_index \<Rightarrow> property list \<Rightarrow> mip_var list list \<Rightarrow> var_index" where
  "store_blocks idx (p # ps) (b # bs) = store_blocks (idx(Property_ID p \<mapsto> b)) ps bs"
| "store_blocks idx _ _ = idx"

definition spec_index :: "input \<Rightarrow> var_index" where
  "spec_index inp = store_blocks Map.empty (Properties inp) (var_blocks 0 (Properties inp))"

text \<open>
  What \<open>format\<close> appends for one property when its reads succeed: the renovations whose
  variable, found at the same position in the slice \<open>vs\<close>, counts as assigned.
\<close>

definition selected_of ::
  "(float64 \<Rightarrow> int) \<Rightarrow> mip_solution \<Rightarrow> mip_var list \<Rightarrow> property \<Rightarrow> assignments list" where
  "selected_of impl sol vs p =
     map (make_assignment p \<circ> fst)
       (filter (\<lambda>(r, v). is_assigned impl sol v) (zip (Property_Renovations p) vs))"


text \<open>
  Modelled from the spec: the solver is outside the sources. A result is feasible for a
  model when every binary variable has the value 0 or 1 and every constraint holds
  (glossary: binary decision variable, feasible solution), the sums taken exactly.
\<close>

fun finite_value :: "float64 \<Rightarrow> real option" where
  "finite_value (Finite r) = Some r"
| "finite_value _ = None"

fun terms_value :: "mip_solution \<Rightarrow> (float64 \<times> mip_var) list \<Rightarrow> real option" where
  "terms_value sol [] = Some 0"
| "terms_value sol ((c, v) # ts) =
     (case (finite_value c, finite_value (Value sol v), terms_value sol ts) of
        (Some a, Some x, Some s) \<Rightarrow> Some (a * x + s)
      | _ \<Rightarrow> None)"

definition constraint_holds :: "mip_solution \<Rightarrow> mip_constraint \<Rightarrow> bool" where
  "constraint_holds sol k =
     (case (terms_value sol (Terms k), finite_value (RightHandSide k)) of
        (Some s, Some b) \<Rightarrow>
          (case Sense k of
             LessThanOrEqual \<Rightarrow> s \<le> b
           | Equal \<Rightarrow> s = b
           | GreaterThanOrEqual \<Rightarrow> s \<ge> b)
      | _ \<Rightarrow> False)"

fun var_holds :: "mip_solution \<Rightarrow> mip_var \<Rightarrow> bool" where
  "var_holds sol (Var n BoolVar) = (Value sol (Var n BoolVar) \<in> {Finite 0, Finite 1})"
| "var_holds sol _ = True"

definition feasible :: "mip_model \<Rightarrow> mip_solution \<Rightarrow> bool" where
  "feasible m sol \<longleftrightarrow> list_all (var_holds sol) (Vars m) \<and> list_all (constraint_holds sol) (Constraints m)"

definition usable :: "mip_solution \<Rightarrow> bool" where
  "usable sol \<longleftrightarrow> IsOptimal sol \<or> IsSubOptimal sol"

text \<open>The nearest integer of a finite value fits the 64-bit \<^verbatim>\<open>int\<close>.\<close>

fun rounds_in_int64 :: "float64 \<Rightarrow> bool" where
  "rounds_in_int64 (Finite r) = fits_int64 (round_half_away r)"
| "rounds_in_int64 _ = False"

fun nearest_integer :: "float64 \<Rightarrow> int" where
  "nearest_integer (Finite r) = round_half_away r"
| "nearest_integer _ = 0"

text \<open>
  The slice that \<open>format\<close> finds for a property (the nil slice when the ID is not a
  key of the index), and whether it is long enough for the reads of the inner loop.
\<close>

definition slice_of :: "var_index \<Rightarrow> property \<Rightarrow> mip_var list" where
  "slice_of idx p = (case idx (Property_ID p) of None \<Rightarrow> [] | Some xs \<Rightarrow> xs)"

definition covers :: "var_index \<Rightarrow> property \<Rightarrow> bool" where
  "covers idx p \<longleftrightarrow> length (Property_Renovations p) \<le> length (slice_of idx p)"

definition spec_format ::
  "(float64 \<Rightarrow> int) \<Rightarrow> input \<Rightarrow> mip_solution \<Rightarrow> var_index \<Rightarrow> assignments list" where
  "spec_format impl inp sol idx =
     concat (map (\<lambda>p. selected_of impl sol (slice_of idx p) p) (Properties inp))"

subsection \<open>Concrete inputs\<close>

text \<open>
  Scenario A of the specification: one property with three renovations and budget 10.
  The model has the variables 0, 1 and 2.
\<close>

definition r1 :: renovation where
  "r1 = \<lparr>Renovation_ID = ''r1'', Renovation_Effect = Finite 3, Renovation_Cost = Finite 5\<rparr>"

definition r2 :: renovation where
  "r2 = \<lparr>Renovation_ID = ''r2'', Renovation_Effect = Finite 5, Renovation_Cost = Finite 4\<rparr>"

definition r3 :: renovation where
  "r3 = \<lparr>Renovation_ID = ''r3'', Renovation_Effect = Finite 1, Renovation_Cost = Finite 3\<rparr>"

definition scenario_A :: input where
  "scenario_A =
     \<lparr>Properties = [\<lparr>Property_ID = ''P1'', Property_Renovations = [r1, r2, r3]\<rparr>],
      Budget = 10\<rparr>"

definition index_A :: var_index where
  "index_A = [''P1'' \<mapsto> [Var 0 BoolVar, Var 1 BoolVar, Var 2 BoolVar]]"

text \<open>A solver result with the given status that gives the listed variables the value 1.\<close>

definition result_with :: "bool \<Rightarrow> bool \<Rightarrow> nat list \<Rightarrow> mip_solution" where
  "result_with opt sub ones =
     \<lparr>IsOptimal = opt, IsSubOptimal = sub,
      Value = (\<lambda>v. case v of
                 Var n k \<Rightarrow> if n \<in> set ones then Finite 1 else Finite 0
               | NilVar \<Rightarrow> NaN)\<rparr>"



text \<open>
  A solver result with the given status that gives variable \<open>n\<close> the \<open>n\<close>-th of
  the listed values.
\<close>

definition result_values :: "bool \<Rightarrow> bool \<Rightarrow> real list \<Rightarrow> mip_solution" where
  "result_values opt sub xs =
     \<lparr>IsOptimal = opt, IsSubOptimal = sub,
      Value = (\<lambda>v. case v of
                 Var n k \<Rightarrow> if n < length xs then Finite (xs ! n) else Finite 0
               | NilVar \<Rightarrow> NaN)\<rparr>"

text \<open>
  One choice of the implementation: the conversion of a value that does not fit gives
  the least 64-bit integer.
\<close>

definition impl_least :: "float64 \<Rightarrow> int" where
  "impl_least x = - (2 ^ 63)"

text \<open>
  Two properties with the same ID, one renovation each, and a budget that pays for the
  second renovation only.
\<close>

definition scenario_dup :: input where
  "scenario_dup =
     \<lparr>Properties = [\<lparr>Property_ID = ''A'', Property_Renovations = [r1]\<rparr>,
                     \<lparr>Property_ID = ''A'', Property_Renovations = [r2]\<rparr>],
      Budget = 4\<rparr>"



text \<open>Budget 0 and one renovation that costs nothing.\<close>

definition scenario_free :: input where
  "scenario_free =
     \<lparr>Properties = [\<lparr>Property_ID = ''P1'', Property_Renovations =
        [\<lparr>Renovation_ID = ''free'', Renovation_Effect = Finite 1, Renovation_Cost = Finite 0\<rparr>]\<rparr>],
      Budget = 0\<rparr>"


text \<open>The value of the objective of a model under a solver result, the sum taken exactly.\<close>

definition objective_value :: "mip_model \<Rightarrow> mip_solution \<Rightarrow> real option" where
  "objective_value m sol = terms_value sol (ObjectiveTerms (Objective m))"

text \<open>Two properties with the same ID, the first with more renovations than the second.\<close>

definition scenario_longer :: input where
  "scenario_longer =
     \<lparr>Properties = [\<lparr>Property_ID = ''A'', Property_Renovations = [r1, r2]\<rparr>,
                     \<lparr>Property_ID = ''A'', Property_Renovations = [r3]\<rparr>],
      Budget = 10\<rparr>"

text \<open>
  An environment whose world is the list of the calls made so far, and in which the
  call \<open>bad\<close> fails; when nothing fails, the solver returns \<open>sol\<close>.
\<close>

datatype mip_call = Call_NewSolver | Call_SetMaximumDuration | Call_SetMIPGapRelative | Call_Solve

definition logging_env ::
  "mip_call option \<Rightarrow> mip_solution \<Rightarrow> (mip_call list, string, unit, unit, unit) mip_env" where
  "logging_env bad sol =
     \<lparr>NewSolver = (\<lambda>provider m w.
        (if bad = Some Call_NewSolver then Inl ''failed'' else Inr (), w @ [Call_NewSolver])),
      NewSolveOptions = (),
      SetMaximumDuration = (\<lambda>so d w.
        (if bad = Some Call_SetMaximumDuration then Inl ''failed'' else Inr (),
         w @ [Call_SetMaximumDuration])),
      SetMIPGapRelative = (\<lambda>so g w.
        (if bad = Some Call_SetMIPGapRelative then Inl ''failed'' else Inr (),
         w @ [Call_SetMIPGapRelative])),
      SetVerbosity = (\<lambda>so v. ()),
      Solve = (\<lambda>h so w.
        (if bad = Some Call_Solve then Inl ''failed'' else Inr sol, w @ [Call_Solve])),
      Statistics = (\<lambda>sol. ()),
      WithCustom = (\<lambda>st m sol. ())\<rparr>"

definition some_options :: options where
  "some_options = \<lparr>Limits = \<lparr>Duration = 30000000000\<rparr>\<rparr>"

section \<open>Theorems\<close>

subsection \<open>The conversion of the budget\<close>

lemma dropped_bits_small: "a < 2 ^ 53 \<Longrightarrow> dropped_bits a = 0"
proof -
  assume a: "a < 2 ^ 53"
  have "\<not> (2::int) ^ (53 + s) \<le> a" for s
  proof -
    have "(2::int) ^ 53 \<le> 2 ^ (53 + s)"
      by (rule power_increasing) simp_all
    then show ?thesis using a by linarith
  qed
  then show ?thesis
    by (simp add: dropped_bits_def)
qed

lemma float64_of_int_exact: "\<bar>n\<bar> < 2 ^ 53 \<Longrightarrow> float64_of_int n = Finite (of_int n)"
  by (simp add: float64_of_int_def Let_def dropped_bits_small sgn_if)

lemma float64_of_int_0 [simp]: "float64_of_int 0 = Finite 0"
  using float64_of_int_exact [of 0] by simp

subsection \<open>The loops of \<^verbatim>\<open>format\<close> in closed form\<close>

lemma index_read_slice:
  "index_read idx (Property_ID p) j =
     (if j < length (slice_of idx p) then Inr (slice_of idx p ! j) else Inl IndexOutOfRange)"
  by (simp add: index_read_def slice_of_def split: option.splits)

lemma format_renovations_ok:
  "j + length rs \<le> length (slice_of idx p) \<Longrightarrow>
   format_renovations impl sol idx p j rs acc =
     Inr (acc @ map (make_assignment p \<circ> fst)
       (filter (\<lambda>(r, v). is_assigned impl sol v) (zip rs (drop j (slice_of idx p)))))"
proof (induction rs arbitrary: j acc)
  case Nil
  then show ?case by simp
next
  case (Cons r rs)
  then have j: "j < length (slice_of idx p)" and rest: "Suc j + length rs \<le> length (slice_of idx p)"
    by simp_all
  have d: "drop j (slice_of idx p) = slice_of idx p ! j # drop (Suc j) (slice_of idx p)"
    using j by (simp add: Cons_nth_drop_Suc)
  show ?case
    using Cons.IH [OF rest] j by (simp add: index_read_slice d)
qed

lemma format_renovations_panic:
  "rs \<noteq> [] \<Longrightarrow> length (slice_of idx p) < j + length rs \<Longrightarrow>
   format_renovations impl sol idx p j rs acc = Inl IndexOutOfRange"
proof (induction rs arbitrary: j acc)
  case Nil
  then show ?case by simp
next
  case (Cons r rs)
  show ?case
  proof (cases "j < length (slice_of idx p)")
    case True
    with Cons.prems have "rs \<noteq> []" and "length (slice_of idx p) < Suc j + length rs"
      by auto
    then show ?thesis using Cons.IH [of "Suc j"] True by (simp add: index_read_slice)
  next
    case False
    then show ?thesis by (simp add: index_read_slice)
  qed
qed

lemma format_property_ok:
  "covers idx p \<Longrightarrow>
   format_renovations impl sol idx p 0 (Property_Renovations p) acc =
     Inr (acc @ selected_of impl sol (slice_of idx p) p)"
  using format_renovations_ok [of 0 "Property_Renovations p" idx p impl sol acc]
  by (simp add: covers_def selected_of_def)

lemma format_property_panic:
  "\<not> covers idx p \<Longrightarrow>
   format_renovations impl sol idx p 0 (Property_Renovations p) acc = Inl IndexOutOfRange"
  using format_renovations_panic [of "Property_Renovations p" idx p 0 impl sol acc]
  by (cases "Property_Renovations p = []") (auto simp: covers_def)

lemma format_properties_ok:
  "list_all (covers idx) ps \<Longrightarrow>
   format_properties impl sol idx ps acc =
     Inr (acc @ concat (map (\<lambda>p. selected_of impl sol (slice_of idx p) p) ps))"
  by (induction ps arbitrary: acc) (simp_all add: format_property_ok)

lemma format_properties_panic:
  "\<not> list_all (covers idx) ps \<Longrightarrow> format_properties impl sol idx ps acc = Inl IndexOutOfRange"
proof (induction ps arbitrary: acc)
  case Nil
  then show ?case by simp
next
  case (Cons p ps)
  show ?case
  proof (cases "covers idx p")
    case True
    then show ?thesis using Cons by (simp add: format_property_ok)
  next
    case False
    then show ?thesis by (simp add: format_property_panic)
  qed
qed

lemma format_usable:
  "usable sol \<Longrightarrow>
   format impl inp sol idx =
     (if list_all (covers idx) (Properties inp)
      then Inr \<lparr>Assignments = spec_format impl inp sol idx\<rparr> else Inl IndexOutOfRange)"
  by (auto simp: format_def usable_def spec_format_def format_properties_ok format_properties_panic)

subsection \<open>The loops of the model builder in closed form\<close>

lemma new_vars_0 [simp]: "new_vars b 0 = []"
  by (simp add: new_vars_def)

lemma new_vars_Suc: "new_vars b (Suc n) = Var b BoolVar # new_vars (Suc b) n"
  by (simp add: new_vars_def upt_rec)

lemma length_new_vars [simp]: "length (new_vars b n) = n"
  by (simp add: new_vars_def)

lemma new_vars_add: "new_vars b (n + k) = new_vars b n @ new_vars (b + n) k"
  by (induction n arbitrary: b) (simp_all add: new_vars_Suc)

lemma add_terms_Nil [simp]: "add_terms [] k = k"
  by (simp add: add_terms_def)

lemma add_terms_add_terms [simp]: "add_terms ts (add_terms us k) = add_terms (us @ ts) k"
  by (simp add: add_terms_def)

lemma add_term_add_terms: "add_term c v k = add_terms [(c, v)] k"
  by (simp add: add_term_def add_terms_def)

lemma with_block_Nil: "bc < length (Constraints m) \<Longrightarrow> with_block bc cc [] m = m"
  by (simp add: with_block_def)

lemma with_block_Cons:
  assumes "bc < length (Constraints m)" "cc < length (Constraints m)" "bc \<noteq> cc"
  shows "with_block bc cc (r # rs) m =
     with_block bc cc rs
       (Constraint_NewTerm
          (Constraint_NewTerm
             (Objective_NewTerm (fst (NewBool m)) (Renovation_Effect r) (snd (NewBool m)))
             bc (Renovation_Cost r) (snd (NewBool m)))
          cc (Finite 1) (snd (NewBool m)))"
  using assms
  by (simp add: with_block_def Let_def NewBool_def Objective_NewTerm_def Constraint_NewTerm_def
      new_vars_Suc add_term_add_terms list_update_swap [of bc cc])


lemma renovation_loop_ok:
  assumes "idx pid = Some xs" "i + length rs \<le> length xs"
    and "bc < length (Constraints m)" "cc < length (Constraints m)" "bc \<noteq> cc"
  shows "renovation_loop pid bc cc i rs (m, idx) =
     Inr (with_block bc cc rs m,
          idx(pid \<mapsto> take i xs @ new_vars (length (Vars m)) (length rs) @ drop (i + length rs) xs))"
  using assms
proof (induction rs arbitrary: i m idx xs)
  case Nil
  then show ?case by (simp add: with_block_Nil map_upd_triv)
next
  case (Cons r rs)
  define b where "b = Var (length (Vars m)) BoolVar"
  define m4 where "m4 = Constraint_NewTerm
          (Constraint_NewTerm
             (Objective_NewTerm (fst (NewBool m)) (Renovation_Effect r) (snd (NewBool m)))
             bc (Renovation_Cost r) (snd (NewBool m)))
          cc (Finite 1) (snd (NewBool m))"
  define idx1 where "idx1 = idx(pid \<mapsto> xs[i := b])"
  from Cons.prems have i: "i < length xs" by simp
  have w: "index_write idx pid i b = Inr idx1"
    using Cons.prems(1) i by (simp add: index_write_def idx1_def)
  have r: "index_read idx1 pid i = Inr b"
    using i by (simp add: index_read_def idx1_def)
  have len: "length (Constraints m4) = length (Constraints m)"
    and vars: "length (Vars m4) = Suc (length (Vars m))"
    by (simp_all add: m4_def NewBool_def Objective_NewTerm_def Constraint_NewTerm_def)
  have nb: "snd (NewBool m) = b"
    by (simp add: NewBool_def b_def)
  have step: "renovation_loop pid bc cc i (r # rs) (m, idx) =
      renovation_loop pid bc cc (Suc i) rs (m4, idx1)"
    by (simp add: case_prod_beta Let_def m4_def nb w r)
  have ih: "renovation_loop pid bc cc (Suc i) rs (m4, idx1) =
     Inr (with_block bc cc rs m4,
          idx1(pid \<mapsto> take (Suc i) (xs[i := b]) @ new_vars (length (Vars m4)) (length rs)
             @ drop (Suc i + length rs) (xs[i := b])))"
    using Cons.prems i by (intro Cons.IH) (simp_all add: len idx1_def)
  have lst: "take (Suc i) (xs[i := b]) @ new_vars (length (Vars m4)) (length rs)
             @ drop (Suc i + length rs) (xs[i := b]) =
        take i xs @ new_vars (length (Vars m)) (length (r # rs)) @ drop (i + length (r # rs)) xs"
    using i by (simp add: vars new_vars_Suc take_Suc_conv_app_nth b_def)
  have upd: "idx1(pid \<mapsto> ys) = idx(pid \<mapsto> ys)" for ys
    by (simp add: idx1_def)
  have wb: "with_block bc cc (r # rs) m = with_block bc cc rs m4"
    unfolding m4_def by (rule with_block_Cons [OF Cons.prems(3-5)])
  show ?case
    unfolding step ih lst upd wb ..
qed

lemma concat_var_blocks: "concat (var_blocks b ps) = new_vars b (length (concat (map Property_Renovations ps)))"
  by (induction ps arbitrary: b) (simp_all add: new_vars_add)

lemma length_var_blocks [simp]: "length (var_blocks b ps) = length ps"
  by (induction ps arbitrary: b) simp_all

lemma property_loop_ok:
  assumes "bc < length (Constraints m)"
  shows "property_loop bc ps (m, idx) =
     Inr (\<lparr>Vars = Vars m @ concat (var_blocks (length (Vars m)) ps),
           Objective = \<lparr>IsMaximize = IsMaximize (Objective m),
             ObjectiveTerms = ObjectiveTerms (Objective m) @
               zip (map Renovation_Effect (concat (map Property_Renovations ps)))
                 (concat (var_blocks (length (Vars m)) ps))\<rparr>,
           Constraints = (Constraints m)
             [bc := add_terms
                (zip (map Renovation_Cost (concat (map Property_Renovations ps)))
                   (concat (var_blocks (length (Vars m)) ps)))
                (Constraints m ! bc)]
             @ map count_constraint (var_blocks (length (Vars m)) ps)\<rparr>,
          store_blocks idx ps (var_blocks (length (Vars m)) ps))"
  using assms
proof (induction ps arbitrary: m idx)
  case Nil
  then show ?case by simp
next
  case (Cons p ps)
  let ?rs = "Property_Renovations p"
  let ?n = "length ?rs"
  let ?cc = "length (Constraints m)"
  let ?m1 = "fst (NewConstraint m LessThanOrEqual (Finite 3))"
  let ?idx1 = "idx(Property_ID p \<mapsto> replicate ?n NilVar)"
  let ?blk = "new_vars (length (Vars m)) ?n"
  have m1: "Vars ?m1 = Vars m" "Objective ?m1 = Objective m"
    "Constraints ?m1 = Constraints m @ [\<lparr>Sense = LessThanOrEqual, RightHandSide = Finite 3, Terms = []\<rparr>]"
    by (simp_all add: NewConstraint_def)
  have inner: "renovation_loop (Property_ID p) bc ?cc 0 ?rs (?m1, ?idx1) =
      Inr (with_block bc ?cc ?rs ?m1, ?idx1(Property_ID p \<mapsto> ?blk))"
    using renovation_loop_ok [of ?idx1 "Property_ID p" "replicate ?n NilVar" 0 ?rs bc ?m1 ?cc]
      Cons.prems by (simp add: m1)
  let ?m2 = "with_block bc ?cc ?rs ?m1"
  have m2: "Vars ?m2 = Vars m @ ?blk"
    "Objective ?m2 = \<lparr>IsMaximize = IsMaximize (Objective m),
       ObjectiveTerms = ObjectiveTerms (Objective m) @ zip (map Renovation_Effect ?rs) ?blk\<rparr>"
    "Constraints ?m2 = (Constraints m)
        [bc := add_terms (zip (map Renovation_Cost ?rs) ?blk) (Constraints m ! bc)]
        @ [count_constraint ?blk]"
    using Cons.prems
    by (simp_all add: with_block_def Let_def m1 list_update_append nth_append
        count_constraint_def add_terms_def)
  have step: "property_loop bc (p # ps) (m, idx) =
      property_loop bc ps (?m2, idx(Property_ID p \<mapsto> ?blk))"
    using inner by (simp add: NewConstraint_def Let_def)
  have bc2: "bc < length (Constraints ?m2)"
    using Cons.prems by (simp add: m2)
  show ?case
    unfolding step Cons.IH [OF bc2]
    using Cons.prems
    by (simp add: m2 list_update_append nth_append)
qed


lemma solver_model_eq: "solver_model inp = Inr (spec_model inp, spec_index inp)"
proof -
  let ?m1 = "fst (NewConstraint (SetMaximize NewModel) LessThanOrEqual (float64_of_int (Budget inp)))"
  have m1: "Vars ?m1 = []" "Objective ?m1 = \<lparr>IsMaximize = True, ObjectiveTerms = []\<rparr>"
    "Constraints ?m1 = [\<lparr>Sense = LessThanOrEqual, RightHandSide = float64_of_int (Budget inp), Terms = []\<rparr>]"
    by (simp_all add: NewConstraint_def SetMaximize_def NewModel_def)
  have "solver_model inp = property_loop 0 (Properties inp) (?m1, Map.empty)"
    by (simp add: solver_model_def NewConstraint_def SetMaximize_def NewModel_def Let_def)
  also have "\<dots> = Inr (spec_model inp, spec_index inp)"
    by (subst property_loop_ok)
      (simp_all add: m1 spec_model_def spec_index_def Let_def all_renovations_def add_terms_def)
  finally show ?thesis .
qed

lemma distinct_new_vars [simp]: "distinct (new_vars b n)"
  by (simp add: new_vars_def distinct_map inj_on_def)

lemma new_vars_bool: "v \<in> set (new_vars b n) \<Longrightarrow> \<exists>k. v = Var k BoolVar"
  by (auto simp: new_vars_def)

lemma Vars_spec_model: "Vars (spec_model inp) = new_vars 0 (length (all_renovations inp))"
  by (simp add: spec_model_def Let_def concat_var_blocks all_renovations_def)

lemma length_var_block:
  "k < length ps \<Longrightarrow> length (var_blocks b ps ! k) = length (Property_Renovations (ps ! k))"
  by (induction ps arbitrary: b k) (auto simp: nth_Cons split: nat.splits)

lemma count_terms_of_blocks: "map (map snd \<circ> Terms) (map count_constraint bs) = bs"
  by (induction bs) (simp_all add: count_constraint_def comp_def)

lemma count_list_distinct: "distinct xs \<Longrightarrow> x \<in> set xs \<Longrightarrow> count_list xs x = 1"
  by (induction xs) auto


subsection \<open>The variable index after the loop\<close>

lemma store_blocks_other:
  "k \<notin> Property_ID ` set ps \<Longrightarrow> store_blocks idx ps bs k = idx k"
  by (induction idx ps bs rule: store_blocks.induct) auto

lemma store_blocks_last:
  assumes "length bs = length ps" "i < length ps" "Property_ID (ps ! i) = k"
    and "\<forall>j. i < j \<and> j < length ps \<longrightarrow> Property_ID (ps ! j) \<noteq> k"
  shows "store_blocks idx ps bs k = Some (bs ! i)"
  using assms
proof (induction idx ps bs arbitrary: i rule: store_blocks.induct)
  case (1 idx p ps b bs)
  show ?case
  proof (cases i)
    case 0
    have "k \<notin> Property_ID ` set ps"
    proof
      assume "k \<in> Property_ID ` set ps"
      then obtain j where "j < length ps" "Property_ID (ps ! j) = k"
        by (auto simp: in_set_conv_nth)
      then show False
        using "1.prems"(4) 0 by (auto dest: spec [of _ "Suc j"])
    qed
    then show ?thesis
      using "1.prems"(3) 0 by (simp add: store_blocks_other)
  next
    case (Suc n)
    have "\<forall>j. n < j \<and> j < length ps \<longrightarrow> Property_ID (ps ! j) \<noteq> k"
      using "1.prems"(4) Suc by (auto dest: spec [of _ "Suc j" for j])
    then show ?thesis
      using "1.prems" Suc "1.IH" [of n] by (simp add: fun_upd_def)
  qed
qed simp_all


lemma store_blocks_distinct:
  assumes "length bs = length ps" "distinct (map Property_ID ps)" "i < length ps"
  shows "store_blocks idx ps bs (Property_ID (ps ! i)) = Some (bs ! i)"
proof (rule store_blocks_last [OF assms(1,3) refl], intro allI impI)
  fix j assume "i < j \<and> j < length ps"
  then show "Property_ID (ps ! j) \<noteq> Property_ID (ps ! i)"
    using assms(2,3) by (auto simp: distinct_conv_nth)
qed

lemma count_block_vars:
  "i < length (Properties inp) \<Longrightarrow>
   map snd (Terms (Constraints (spec_model inp) ! Suc i)) = var_blocks 0 (Properties inp) ! i"
  by (simp add: spec_model_def Let_def count_constraint_def comp_def)

subsection \<open>Selection, order and dependence of \<^verbatim>\<open>format\<close>\<close>

lemma truncate_of_int [simp]: "truncate_real (of_int n) = n"
  by (simp add: truncate_real_def)

lemma is_assigned_iff:
  "rounds_in_int64 (Value sol v) \<Longrightarrow>
   is_assigned impl sol v \<longleftrightarrow> 1 \<le> nearest_integer (Value sol v)"
  by (cases "Value sol v") (auto simp: is_assigned_def)

lemma zip_snd_in_take: "(r, v) \<in> set (zip rs vs) \<Longrightarrow> v \<in> set (take (length rs) vs)"
proof (induction rs arbitrary: vs)
  case Nil
  then show ?case by simp
next
  case (Cons a rs)
  then show ?case by (cases vs) auto
qed

lemma selected_of_cong:
  assumes "\<forall>v\<in>set (take (length (Property_Renovations p)) vs). is_assigned impl sol v = Q v"
  shows "selected_of impl sol vs p =
     map (make_assignment p \<circ> fst) (filter (\<lambda>(r, v). Q v) (zip (Property_Renovations p) vs))"
proof -
  have "filter (\<lambda>(r, v). is_assigned impl sol v) (zip (Property_Renovations p) vs) =
        filter (\<lambda>(r, v). Q v) (zip (Property_Renovations p) vs)"
    using assms by (intro filter_cong refl) (auto dest: zip_snd_in_take)
  then show ?thesis by (simp add: selected_of_def)
qed






lemma selected_of_agree:
  assumes "\<forall>v\<in>set (take (length (Property_Renovations p)) vs). Value sol' v = Value sol v"
  shows "selected_of impl sol' vs p = selected_of impl sol vs p"
  unfolding selected_of_def [of impl sol]
  using assms by (intro selected_of_cong) (simp add: is_assigned_def)

subsection \<open>Feasible solver results\<close>



















subsection \<open>The concrete inputs evaluated\<close>

lemma result_with_status [simp]:
  "IsOptimal (result_with a b ones) = a" "IsSubOptimal (result_with a b ones) = b"
  by (simp_all add: result_with_def)

lemma is_assigned_result_with:
  "is_assigned impl_least (result_with a b ones) (Var n k) \<longleftrightarrow> n \<in> set ones"
  by (simp add: is_assigned_def result_with_def round_half_away_def truncate_real_def fits_int64_def)

lemma result_values_Value:
  "Value (result_values a b xs) (Var n k) = (if n < length xs then Finite (xs ! n) else Finite 0)"
  by (simp add: result_values_def)

lemma slice_of_index_A:
  "Property_ID p = ''P1'' \<Longrightarrow> slice_of index_A p = [Var 0 BoolVar, Var 1 BoolVar, Var 2 BoolVar]"
  by (simp add: slice_of_def index_A_def)

lemma logging_env_sel:
  "NewSolver (logging_env bad sol) p m w =
     (if bad = Some Call_NewSolver then Inl ''failed'' else Inr (), w @ [Call_NewSolver])"
  "SetMaximumDuration (logging_env bad sol) so d w =
     (if bad = Some Call_SetMaximumDuration then Inl ''failed'' else Inr (), w @ [Call_SetMaximumDuration])"
  "SetMIPGapRelative (logging_env bad sol) so g w =
     (if bad = Some Call_SetMIPGapRelative then Inl ''failed'' else Inr (), w @ [Call_SetMIPGapRelative])"
  "Solve (logging_env bad sol) h so w =
     (if bad = Some Call_Solve then Inl ''failed'' else Inr sol, w @ [Call_Solve])"
  by (simp_all add: logging_env_def)

lemma spec_index_scenario_dup: "spec_index scenario_dup ''A'' = Some [Var 1 BoolVar]"
  by (simp add: spec_index_def scenario_dup_def new_vars_def)

lemma Properties_scenario_dup:
  "Properties scenario_dup =
     [\<lparr>Property_ID = ''A'', Property_Renovations = [r1]\<rparr>,
      \<lparr>Property_ID = ''A'', Property_Renovations = [r2]\<rparr>]"
  by (simp add: scenario_dup_def)

lemma slice_of_scenario_dup:
  "Property_ID p = ''A'' \<Longrightarrow> slice_of (spec_index scenario_dup) p = [Var 1 BoolVar]"
  by (simp add: slice_of_def spec_index_scenario_dup)

lemma result_with_Value:
  "Value (result_with a b ones) (Var n k) = (if n \<in> set ones then Finite 1 else Finite 0)"
  by (simp add: result_with_def)



lemma spec_model_scenario_free:
  "spec_model scenario_free =
     \<lparr>Vars = [Var 0 BoolVar],
      Objective = \<lparr>IsMaximize = True, ObjectiveTerms = [(Finite 1, Var 0 BoolVar)]\<rparr>,
      Constraints =
        [\<lparr>Sense = LessThanOrEqual, RightHandSide = Finite 0, Terms = [(Finite 0, Var 0 BoolVar)]\<rparr>,
         \<lparr>Sense = LessThanOrEqual, RightHandSide = Finite 3, Terms = [(Finite 1, Var 0 BoolVar)]\<rparr>]\<rparr>"
  by (simp add: spec_model_def Let_def scenario_free_def all_renovations_def new_vars_def
      count_constraint_def)



lemma scenario_free_optimum:
  assumes "feasible (spec_model scenario_free) sol"
  shows "\<exists>x. objective_value (spec_model scenario_free) sol = Some x \<and> x \<le> 1"
    and "objective_value (spec_model scenario_free) (result_with True False [0]) = Some 1"
  using assms
  by (auto simp: spec_model_scenario_free feasible_def objective_value_def result_with_Value)

lemma spec_model_scenario_dup:
  "spec_model scenario_dup =
     \<lparr>Vars = [Var 0 BoolVar, Var 1 BoolVar],
      Objective = \<lparr>IsMaximize = True, ObjectiveTerms =
        [(Finite 3, Var 0 BoolVar), (Finite 5, Var 1 BoolVar)]\<rparr>,
      Constraints =
        [\<lparr>Sense = LessThanOrEqual, RightHandSide = Finite 4, Terms =
           [(Finite 5, Var 0 BoolVar), (Finite 4, Var 1 BoolVar)]\<rparr>,
         \<lparr>Sense = LessThanOrEqual, RightHandSide = Finite 3, Terms = [(Finite 1, Var 0 BoolVar)]\<rparr>,
         \<lparr>Sense = LessThanOrEqual, RightHandSide = Finite 3, Terms = [(Finite 1, Var 1 BoolVar)]\<rparr>]\<rparr>"
  by (simp add: spec_model_def Let_def scenario_dup_def all_renovations_def r1_def r2_def
      new_vars_def count_constraint_def float64_of_int_exact)

text \<open>
  When an earlier property has more renovations than the last property with the same
  ID, the read beyond the stored slice panics.
\<close>

lemma format_scenario_longer:
  "solver_model scenario_longer = Inr (spec_model scenario_longer, spec_index scenario_longer) \<and>
   format impl_least scenario_longer (result_with True False []) (spec_index scenario_longer) =
     Inl IndexOutOfRange"
proof -
  have "spec_index scenario_longer = [''A'' \<mapsto> [Var 2 BoolVar]]"
    by (simp add: spec_index_def scenario_longer_def new_vars_def eval_nat_numeral)
  then have "format impl_least scenario_longer (result_with True False []) (spec_index scenario_longer) =
     Inl IndexOutOfRange"
    by (simp add: format_def scenario_longer_def index_read_def is_assigned_result_with)
  then show ?thesis
    by (simp add: solver_model_eq)
qed

lemma Vars_scenario_A:
  "Vars (spec_model scenario_A) = [Var 0 BoolVar, Var 1 BoolVar, Var 2 BoolVar]"
  by (simp add: spec_model_def Let_def scenario_A_def new_vars_def upt_rec eval_nat_numeral)

subsection \<open>The claims\<close>

text \<open>
  C1. For every input the builder returns (it does not panic), and the model it returns
  has one binary variable per pair of a property and one of its renovations; a
  maximisation objective whose terms pair, in input order, the effect of each renovation
  with its variable; the budget constraint first, with comparator \<open>\<le>\<close>, the budget
  (converted to \<^verbatim>\<open>float64\<close>, which changes no budget below \<open>2 ^ 53\<close> in
  absolute value) as right-hand side and terms that pair the cost of each
  renovation with its variable; then one constraint \<open>\<le> 3\<close> per property, in input
  order, with one term of coefficient 1 per renovation of the property, the variables
  of these constraints being, in order, the variables of the model. Each variable
  occurs in exactly one term of the objective, one of the budget constraint and one of
  the count constraints.
\<close>

theorem solver_model_structure:
  "\<exists>m idx. solver_model inp = Inr (m, idx) \<and>
     length (Vars m) = (\<Sum>p\<leftarrow>Properties inp. length (Property_Renovations p)) \<and>
     length (Vars m) = length (all_renovations inp) \<and>
     (\<forall>v\<in>set (Vars m). \<exists>k. v = Var k BoolVar) \<and>
     IsMaximize (Objective m) \<and>
     ObjectiveTerms (Objective m) = zip (map Renovation_Effect (all_renovations inp)) (Vars m) \<and>
     length (Constraints m) = 1 + length (Properties inp) \<and>
     Sense (hd (Constraints m)) = LessThanOrEqual \<and>
     RightHandSide (hd (Constraints m)) = float64_of_int (Budget inp) \<and>
     (\<bar>Budget inp\<bar> < 2 ^ 53 \<longrightarrow>
        RightHandSide (hd (Constraints m)) = Finite (of_int (Budget inp))) \<and>
     Terms (hd (Constraints m)) = zip (map Renovation_Cost (all_renovations inp)) (Vars m) \<and>
     (\<forall>k<length (Properties inp).
        Sense (Constraints m ! Suc k) = LessThanOrEqual \<and>
        RightHandSide (Constraints m ! Suc k) = Finite 3 \<and>
        length (Terms (Constraints m ! Suc k)) = length (Property_Renovations (Properties inp ! k)) \<and>
        (\<forall>t\<in>set (Terms (Constraints m ! Suc k)). fst t = Finite 1)) \<and>
     concat (map (map snd \<circ> Terms) (tl (Constraints m))) = Vars m \<and>
     (\<forall>v\<in>set (Vars m).
        count_list (map snd (ObjectiveTerms (Objective m))) v = 1 \<and>
        count_list (map snd (Terms (hd (Constraints m)))) v = 1 \<and>
        count_list (concat (map (map snd \<circ> Terms) (tl (Constraints m)))) v = 1)"
proof -
  let ?m = "spec_model inp"
  let ?bs = "var_blocks 0 (Properties inp)"
  have len: "length (Vars ?m) = length (all_renovations inp)"
    by (simp add: Vars_spec_model)
  have sum: "length (all_renovations inp) = (\<Sum>p\<leftarrow>Properties inp. length (Property_Renovations p))"
    by (simp add: all_renovations_def length_concat comp_def)
  have dist: "distinct (Vars ?m)"
    by (simp add: Vars_spec_model)
  have vs: "Vars ?m = concat ?bs"
    by (simp add: spec_model_def Let_def)
  have obj: "IsMaximize (Objective ?m)"
    "ObjectiveTerms (Objective ?m) = zip (map Renovation_Effect (all_renovations inp)) (Vars ?m)"
    by (simp_all add: spec_model_def Let_def)
  have cons: "Constraints ?m =
      \<lparr>Sense = LessThanOrEqual, RightHandSide = float64_of_int (Budget inp),
        Terms = zip (map Renovation_Cost (all_renovations inp)) (Vars ?m)\<rparr> # map count_constraint ?bs"
    by (simp add: spec_model_def Let_def)
  have cnt: "\<forall>k<length (Properties inp).
        Sense (Constraints ?m ! Suc k) = LessThanOrEqual \<and>
        RightHandSide (Constraints ?m ! Suc k) = Finite 3 \<and>
        length (Terms (Constraints ?m ! Suc k)) = length (Property_Renovations (Properties inp ! k)) \<and>
        (\<forall>t\<in>set (Terms (Constraints ?m ! Suc k)). fst t = Finite 1)"
    by (auto simp: cons count_constraint_def length_var_block)
  have tl: "concat (map (map snd \<circ> Terms) (tl (Constraints ?m))) = Vars ?m"
    unfolding cons vs list.sel count_terms_of_blocks ..
  have once: "count_list (Vars ?m) v = 1" if "v \<in> set (Vars ?m)" for v
    using dist that by (rule count_list_distinct)
  have uniq: "\<forall>v\<in>set (Vars ?m).
        count_list (map snd (ObjectiveTerms (Objective ?m))) v = 1 \<and>
        count_list (map snd (Terms (hd (Constraints ?m)))) v = 1 \<and>
        count_list (concat (map (map snd \<circ> Terms) (tl (Constraints ?m)))) v = 1"
    unfolding tl by (simp add: obj cons len once)
  have bool: "\<forall>v\<in>set (Vars ?m). \<exists>k. v = Var k BoolVar"
    by (auto simp: Vars_spec_model dest: new_vars_bool)
  show ?thesis
    apply (rule exI [of _ ?m], rule exI [of _ "spec_index inp"])
    apply (intro conjI)
                 apply (rule solver_model_eq)
    using len sum bool obj cnt tl uniq apply (simp_all add: cons float64_of_int_exact)
    done
qed

theorem solver_model_structure_witness:
  "\<exists>m idx. solver_model scenario_A = Inr (m, idx) \<and>
     Var 1 BoolVar \<in> set (Vars m) \<and>
     count_list (map snd (ObjectiveTerms (Objective m))) (Var 1 BoolVar) = 1 \<and>
     count_list (map snd (Terms (hd (Constraints m)))) (Var 1 BoolVar) = 1 \<and>
     count_list (concat (map (map snd \<circ> Terms) (tl (Constraints m)))) (Var 1 BoolVar) = 1 \<and>
     0 < length (Properties scenario_A) \<and>
     RightHandSide (Constraints m ! Suc 0) = Finite 3 \<and>
     length (Terms (Constraints m ! Suc 0)) = 3 \<and>
     RightHandSide (hd (Constraints m)) = Finite 10 \<and>
     Terms (hd (Constraints m)) =
       [(Finite 5, Var 0 BoolVar), (Finite 4, Var 1 BoolVar), (Finite 3, Var 2 BoolVar)]"
proof -
  obtain m idx where m: "solver_model scenario_A = Inr (m, idx)"
    and bool: "\<forall>v\<in>set (Vars m). \<exists>k. v = Var k BoolVar"
    and rhs: "\<bar>Budget scenario_A\<bar> < 2 ^ 53 \<longrightarrow>
        RightHandSide (hd (Constraints m)) = Finite (of_int (Budget scenario_A))"
    and budget: "Terms (hd (Constraints m)) =
       zip (map Renovation_Cost (all_renovations scenario_A)) (Vars m)"
    and cnt: "\<forall>k<length (Properties scenario_A).
        Sense (Constraints m ! Suc k) = LessThanOrEqual \<and>
        RightHandSide (Constraints m ! Suc k) = Finite 3 \<and>
        length (Terms (Constraints m ! Suc k)) =
          length (Property_Renovations (Properties scenario_A ! k)) \<and>
        (\<forall>t\<in>set (Terms (Constraints m ! Suc k)). fst t = Finite 1)"
    and uniq: "\<forall>v\<in>set (Vars m).
        count_list (map snd (ObjectiveTerms (Objective m))) v = 1 \<and>
        count_list (map snd (Terms (hd (Constraints m)))) v = 1 \<and>
        count_list (concat (map (map snd \<circ> Terms) (tl (Constraints m)))) v = 1"
    using solver_model_structure [of scenario_A] by blast
  have "m = spec_model scenario_A"
    using m by (simp add: solver_model_eq)
  then have vars: "Vars m = [Var 0 BoolVar, Var 1 BoolVar, Var 2 BoolVar]"
    by (simp add: Vars_scenario_A)
  have props: "0 < length (Properties scenario_A)"
    "length (Property_Renovations (Properties scenario_A ! 0)) = 3"
    by (simp_all add: scenario_A_def)
  have terms: "Terms (hd (Constraints m)) =
       [(Finite 5, Var 0 BoolVar), (Finite 4, Var 1 BoolVar), (Finite 3, Var 2 BoolVar)]"
    unfolding budget vars by (simp add: all_renovations_def scenario_A_def r1_def r2_def r3_def)
  have rhs10: "RightHandSide (hd (Constraints m)) = Finite 10"
    using rhs by (simp add: scenario_A_def)
  show ?thesis
    using m uniq cnt props terms rhs10 by (auto simp: vars)
qed

text \<open>
  C2. When the solver result is neither optimal nor suboptimal, \<open>format\<close> returns the
  solution without assignments, whatever the input and the variable index are, and does
  not panic. When the result is optimal or suboptimal (each flag alone is enough, so
  also a suboptimal result after a time limit), \<open>format\<close> returns what its loop over
  the properties produces.
\<close>

theorem format_status_guard:
  "(\<not> IsOptimal sol \<and> \<not> IsSubOptimal sol \<longrightarrow>
      format impl inp sol idx = Inr \<lparr>Assignments = []\<rparr>) \<and>
   (IsOptimal sol \<or> IsSubOptimal sol \<longrightarrow>
      format impl inp sol idx =
        map_sum id (\<lambda>a. \<lparr>Assignments = a\<rparr>) (format_properties impl sol idx (Properties inp) []))"
  by (auto simp: format_def split: sum.splits)

theorem format_status_guard_witness:
  "(\<not> IsOptimal (result_with False False [0, 1]) \<and> \<not> IsSubOptimal (result_with False False [0, 1])) \<and>
   format impl_least scenario_A (result_with False False [0, 1]) Map.empty = Inr \<lparr>Assignments = []\<rparr> \<and>
   (IsOptimal (result_with False True [0, 1]) \<or> IsSubOptimal (result_with False True [0, 1])) \<and>
   format impl_least scenario_A (result_with False True [0, 1]) index_A =
     Inr \<lparr>Assignments = [make_assignment (hd (Properties scenario_A)) r1,
                          make_assignment (hd (Properties scenario_A)) r2]\<rparr>"
  using format_status_guard [of "result_with False False [0, 1]" impl_least scenario_A Map.empty]
    format_status_guard [of "result_with False True [0, 1]" impl_least scenario_A index_A]
  by (simp add: scenario_A_def index_A_def index_read_def is_assigned_result_with)

text \<open>
  C3. For an optimal or suboptimal solver result, when the reads of the index succeed
  and the value of each variable read, rounded to the nearest integer (half away from
  zero), fits the 64-bit \<^verbatim>\<open>int\<close>, \<open>format\<close> returns, in input order, exactly the
  pairs whose variable has a rounded value of at least 1. So a value of 0.999999 is
  selected, and a value between 0 and 1 that rounds to 0 is not.
\<close>

theorem format_selects_rounded:
  assumes "usable sol" and "list_all (covers idx) (Properties inp)"
    and "\<forall>p\<in>set (Properties inp).
           \<forall>v\<in>set (take (length (Property_Renovations p)) (slice_of idx p)).
             rounds_in_int64 (Value sol v)"
  shows "format impl inp sol idx =
     Inr \<lparr>Assignments = concat (map
       (\<lambda>p. map (make_assignment p \<circ> fst)
          (filter (\<lambda>(r, v). 1 \<le> nearest_integer (Value sol v))
             (zip (Property_Renovations p) (slice_of idx p))))
       (Properties inp))\<rparr>"
proof -
  have "selected_of impl sol (slice_of idx p) p =
      map (make_assignment p \<circ> fst)
          (filter (\<lambda>(r, v). 1 \<le> nearest_integer (Value sol v))
             (zip (Property_Renovations p) (slice_of idx p)))"
    if "p \<in> set (Properties inp)" for p
    using assms(3) that by (intro selected_of_cong) (simp add: is_assigned_iff)
  then have "spec_format impl inp sol idx = concat (map
       (\<lambda>p. map (make_assignment p \<circ> fst)
          (filter (\<lambda>(r, v). 1 \<le> nearest_integer (Value sol v))
             (zip (Property_Renovations p) (slice_of idx p))))
       (Properties inp))"
    unfolding spec_format_def by (intro arg_cong [where f = concat] map_cong refl)
  then show ?thesis
    using assms(1,2) by (simp add: format_usable)
qed

theorem format_selects_rounded_witness:
  "format impl_least scenario_A (result_values True False [999999 / 1000000, 2 / 5, 1 / 2]) index_A =
     Inr \<lparr>Assignments =
       [\<lparr>Property = ''P1'', RenovationID = ''r1'', Cost = Finite 5, Effect = Finite 3\<rparr>,
        \<lparr>Property = ''P1'', RenovationID = ''r3'', Cost = Finite 3, Effect = Finite 1\<rparr>]\<rparr>"
proof -
  let ?sol = "result_values True False [999999 / 1000000, 2 / 5, 1 / 2]"
  have h1: "usable ?sol"
    by (simp add: usable_def result_values_def)
  have h2: "list_all (covers index_A) (Properties scenario_A)"
    by (simp add: scenario_A_def covers_def slice_of_index_A)
  have h3: "\<forall>p\<in>set (Properties scenario_A).
           \<forall>v\<in>set (take (length (Property_Renovations p)) (slice_of index_A p)).
             rounds_in_int64 (Value ?sol v)"
    by (simp add: scenario_A_def slice_of_index_A result_values_Value round_half_away_def fits_int64_def)
  show ?thesis
    using format_selects_rounded [OF h1 h2 h3, of impl_least]
    by (simp add: scenario_A_def slice_of_index_A result_values_Value round_half_away_def make_assignment_def
        r1_def r2_def r3_def)
qed





text \<open>
  C9. \<open>format\<close> is a function of its three arguments (and of the platform's
  conversion \<open>impl\<close>): its result, a returned solution or a panic, is the same
  whenever the two status flags agree, the index agrees on the IDs of the input's
  properties, and the values agree on the variables that are read. In particular two
  calls on the same arguments give the same result. The function has no effect on its
  arguments: the only variable the source assigns to is the local slice
  \<^verbatim>\<open>assigned\<close>.
\<close>

theorem format_deterministic:
  assumes "IsOptimal sol' = IsOptimal sol" and "IsSubOptimal sol' = IsSubOptimal sol"
    and "\<forall>p\<in>set (Properties inp). idx' (Property_ID p) = idx (Property_ID p)"
    and "\<forall>p\<in>set (Properties inp).
           \<forall>v\<in>set (take (length (Property_Renovations p)) (slice_of idx p)).
             Value sol' v = Value sol v"
  shows "format impl inp sol' idx' = format impl inp sol idx"
proof (cases "usable sol")
  case True
  then have u: "usable sol'"
    using assms(1,2) by (simp add: usable_def)
  have sl: "slice_of idx' p = slice_of idx p" if "p \<in> set (Properties inp)" for p
    using assms(3) that by (simp add: slice_of_def)
  then have cov: "list_all (covers idx') (Properties inp) = list_all (covers idx) (Properties inp)"
    by (simp add: list_all_iff covers_def)
  have "selected_of impl sol' (slice_of idx' p) p = selected_of impl sol (slice_of idx p) p"
    if "p \<in> set (Properties inp)" for p
    using assms(4) that by (simp add: sl selected_of_agree)
  then have "spec_format impl inp sol' idx' = spec_format impl inp sol idx"
    unfolding spec_format_def by (intro arg_cong [where f = concat] map_cong refl)
  then show ?thesis
    using True u by (simp add: format_usable cov)
next
  case False
  then show ?thesis
    using assms(1,2) by (simp add: format_def usable_def)
qed

theorem format_deterministic_witness:
  "format impl_least scenario_A (result_values True False [1, 0, 1, 7])
       (index_A(''P9'' \<mapsto> [Var 3 BoolVar])) =
   format impl_least scenario_A (result_values True False [1, 0, 1]) index_A"
proof -
  let ?sol' = "result_values True False [1, 0, 1, 7]"
  let ?sol = "result_values True False [1, 0, 1]"
  have h1: "IsOptimal ?sol' = IsOptimal ?sol" and h2: "IsSubOptimal ?sol' = IsSubOptimal ?sol"
    by (simp_all add: result_values_def)
  have h3: "\<forall>p\<in>set (Properties scenario_A).
      (index_A(''P9'' \<mapsto> [Var 3 BoolVar])) (Property_ID p) = index_A (Property_ID p)"
    by (simp add: scenario_A_def)
  have h4: "\<forall>p\<in>set (Properties scenario_A).
           \<forall>v\<in>set (take (length (Property_Renovations p)) (slice_of index_A p)).
             Value ?sol' v = Value ?sol v"
    by (simp add: scenario_A_def slice_of_index_A result_values_Value)
  show ?thesis
    using format_deterministic [OF h1 h2 h3 h4] .
qed

text \<open>
  C8. When creating the solver, setting the maximum duration, setting the relative gap
  or the solve call returns an error, \<open>solver\<close> returns that same error together
  with the zero value of the output, which holds no solution. The world it leaves is the
  one right after the failing call: no further call to the solver engine is made, in
  particular no second attempt.
\<close>

theorem solver_propagates_errors:
  assumes "solver_model inp = Inr (m, idx)"
  shows
   "(NewSolver env ''highs'' m w = (Inl err, wa) \<longrightarrow>
       solver env impl inp opts w = (Inr (empty_Output, Some err), wa)) \<and>
    (NewSolver env ''highs'' m w = (Inr slv, wa) \<and>
     SetMaximumDuration env (NewSolveOptions env) (Duration (Limits opts)) wa = (Inl err, wb) \<longrightarrow>
       solver env impl inp opts w = (Inr (empty_Output, Some err), wb)) \<and>
    (NewSolver env ''highs'' m w = (Inr slv, wa) \<and>
     SetMaximumDuration env (NewSolveOptions env) (Duration (Limits opts)) wa = (Inr soa, wb) \<and>
     SetMIPGapRelative env soa (Finite 0) wb = (Inl err, wc) \<longrightarrow>
       solver env impl inp opts w = (Inr (empty_Output, Some err), wc)) \<and>
    (NewSolver env ''highs'' m w = (Inr slv, wa) \<and>
     SetMaximumDuration env (NewSolveOptions env) (Duration (Limits opts)) wa = (Inr soa, wb) \<and>
     SetMIPGapRelative env soa (Finite 0) wb = (Inr sob, wc) \<and>
     Solve env slv (SetVerbosity env sob Off) wc = (Inl err, wd) \<longrightarrow>
       solver env impl inp opts w = (Inr (empty_Output, Some err), wd)) \<and>
    Output_Solutions (empty_Output :: 'st schema_Output) = []"
  using assms by (simp add: solver_def empty_Output_def)

theorem solver_propagates_errors_witness:
  "solver (logging_env (Some Call_NewSolver) (result_with True False [])) impl_least scenario_A
       some_options [] =
     (Inr (empty_Output, Some ''failed''), [Call_NewSolver]) \<and>
   solver (logging_env (Some Call_SetMaximumDuration) (result_with True False [])) impl_least
       scenario_A some_options [] =
     (Inr (empty_Output, Some ''failed''), [Call_NewSolver, Call_SetMaximumDuration]) \<and>
   solver (logging_env (Some Call_SetMIPGapRelative) (result_with True False [])) impl_least
       scenario_A some_options [] =
     (Inr (empty_Output, Some ''failed''),
      [Call_NewSolver, Call_SetMaximumDuration, Call_SetMIPGapRelative]) \<and>
   solver (logging_env (Some Call_Solve) (result_with True False [])) impl_least
       scenario_A some_options [] =
     (Inr (empty_Output, Some ''failed''),
      [Call_NewSolver, Call_SetMaximumDuration, Call_SetMIPGapRelative, Call_Solve])"
proof -
  have m: "solver_model scenario_A = Inr (spec_model scenario_A, spec_index scenario_A)"
    by (rule solver_model_eq)
  note inst = solver_propagates_errors [OF m, where impl = impl_least and opts = some_options
      and w = "[]" and err = "''failed''" and slv = "()" and soa = "()" and sob = "()"]
  show ?thesis
    using
      inst [where env = "logging_env (Some Call_NewSolver) (result_with True False [])"
        and wa = "[Call_NewSolver]"]
      inst [where env = "logging_env (Some Call_SetMaximumDuration) (result_with True False [])"
        and wa = "[Call_NewSolver]" and wb = "[Call_NewSolver, Call_SetMaximumDuration]"]
      inst [where env = "logging_env (Some Call_SetMIPGapRelative) (result_with True False [])"
        and wa = "[Call_NewSolver]" and wb = "[Call_NewSolver, Call_SetMaximumDuration]"
        and wc = "[Call_NewSolver, Call_SetMaximumDuration, Call_SetMIPGapRelative]"]
      inst [where env = "logging_env (Some Call_Solve) (result_with True False [])"
        and wa = "[Call_NewSolver]" and wb = "[Call_NewSolver, Call_SetMaximumDuration]"
        and wc = "[Call_NewSolver, Call_SetMaximumDuration, Call_SetMIPGapRelative]"
        and wd = "[Call_NewSolver, Call_SetMaximumDuration, Call_SetMIPGapRelative, Call_Solve]"]
    by (simp add: logging_env_sel) blast
qed

text \<open>
  C10. Let \<open>i\<close> be the position of the last property of the input with the ID
  \<open>k\<close>. After the builder has run, the index holds under \<open>k\<close> the variables of
  that property alone (the variables of its count constraint). For an optimal or
  suboptimal result, \<open>format\<close> decides the selection for every property with the ID
  \<open>k\<close> from these variables, while the assignment it appends is made from the
  property's own record and renovation records; it panics exactly when some property
  has more renovations than the slice stored under its ID. When the IDs of the input
  are pairwise distinct, the index holds under the ID of each property that property's
  own variables.
\<close>

theorem duplicate_id_keeps_last_block:
  assumes "solver_model inp = Inr (m, idx)"
    and "i < length (Properties inp)" and "Property_ID (Properties inp ! i) = k"
    and "\<forall>j. i < j \<and> j < length (Properties inp) \<longrightarrow> Property_ID (Properties inp ! j) \<noteq> k"
  shows "idx k = Some (map snd (Terms (Constraints m ! Suc i))) \<and>
    (usable sol \<longrightarrow>
       format impl inp sol idx =
         (if list_all (covers idx) (Properties inp)
          then Inr \<lparr>Assignments = concat (map
            (\<lambda>p. selected_of impl sol
                   (if Property_ID p = k then map snd (Terms (Constraints m ! Suc i))
                    else slice_of idx p) p)
            (Properties inp))\<rparr>
          else Inl IndexOutOfRange)) \<and>
    (distinct (map Property_ID (Properties inp)) \<longrightarrow>
       (\<forall>j<length (Properties inp).
          idx (Property_ID (Properties inp ! j)) = Some (map snd (Terms (Constraints m ! Suc j)))))"
proof -
  have m: "m = spec_model inp" and idx: "idx = spec_index inp"
    using assms(1) by (simp_all add: solver_model_eq)
  have last: "idx k = Some (map snd (Terms (Constraints m ! Suc i)))"
    unfolding idx m spec_index_def count_block_vars [OF assms(2)]
    using assms(2-4) by (intro store_blocks_last) simp_all
  then have sl: "slice_of idx p = map snd (Terms (Constraints m ! Suc i))" if "Property_ID p = k" for p
    using that by (simp add: slice_of_def)
  have fmt: "format impl inp sol idx =
         (if list_all (covers idx) (Properties inp)
          then Inr \<lparr>Assignments = concat (map
            (\<lambda>p. selected_of impl sol
                   (if Property_ID p = k then map snd (Terms (Constraints m ! Suc i))
                    else slice_of idx p) p)
            (Properties inp))\<rparr>
          else Inl IndexOutOfRange)"
    if "usable sol"
  proof -
    have "spec_format impl inp sol idx = concat (map
           (\<lambda>p. selected_of impl sol
                  (if Property_ID p = k then map snd (Terms (Constraints m ! Suc i))
                   else slice_of idx p) p)
           (Properties inp))"
      unfolding spec_format_def
      by (intro arg_cong [where f = concat] map_cong refl) (simp add: sl)
    then show ?thesis
      using that by (simp add: format_usable)
  qed
  have own: "idx (Property_ID (Properties inp ! j)) = Some (map snd (Terms (Constraints m ! Suc j)))"
    if "distinct (map Property_ID (Properties inp))" "j < length (Properties inp)" for j
    unfolding idx m spec_index_def count_block_vars [OF that(2)]
    using that by (intro store_blocks_distinct) simp_all
  show ?thesis
    using last fmt own by blast
qed

theorem duplicate_id_keeps_last_block_witness:
  "solver_model scenario_dup = Inr (spec_model scenario_dup, spec_index scenario_dup) \<and>
   feasible (spec_model scenario_dup) (result_with True False [1]) \<and>
   spec_index scenario_dup ''A'' = Some [Var 1 BoolVar] \<and>
   map snd (Terms (Constraints (spec_model scenario_dup) ! Suc 1)) = [Var 1 BoolVar] \<and>
   format impl_least scenario_dup (result_with True False [1]) (spec_index scenario_dup) =
     Inr \<lparr>Assignments =
       [\<lparr>Property = ''A'', RenovationID = ''r1'', Cost = Finite 5, Effect = Finite 3\<rparr>,
        \<lparr>Property = ''A'', RenovationID = ''r2'', Cost = Finite 4, Effect = Finite 5\<rparr>]\<rparr>"
proof -
  have m: "solver_model scenario_dup = Inr (spec_model scenario_dup, spec_index scenario_dup)"
    by (rule solver_model_eq)
  have feas: "feasible (spec_model scenario_dup) (result_with True False [1])"
    by (simp add: spec_model_scenario_dup feasible_def constraint_holds_def result_with_Value)
  have i: "1 < length (Properties scenario_dup)"
    and k: "Property_ID (Properties scenario_dup ! 1) = ''A''"
    and l: "\<forall>j. 1 < j \<and> j < length (Properties scenario_dup) \<longrightarrow>
        Property_ID (Properties scenario_dup ! j) \<noteq> ''A''"
    by (simp_all add: scenario_dup_def)
  have blk: "map snd (Terms (Constraints (spec_model scenario_dup) ! Suc 1)) = [Var 1 BoolVar]"
    by (simp add: count_block_vars scenario_dup_def new_vars_def)
  have u: "usable (result_with True False [1])"
    by (simp add: usable_def)
  have c: "list_all (covers (spec_index scenario_dup)) (Properties scenario_dup)"
    by (simp add: Properties_scenario_dup covers_def slice_of_scenario_dup)
  have f: "format impl_least scenario_dup (result_with True False [1]) (spec_index scenario_dup) =
      Inr \<lparr>Assignments = concat (map
        (\<lambda>p. selected_of impl_least (result_with True False [1])
               (if Property_ID p = ''A'' then [Var 1 BoolVar]
                else slice_of (spec_index scenario_dup) p) p)
        (Properties scenario_dup))\<rparr>"
    using duplicate_id_keeps_last_block [OF m i k l, of "result_with True False [1]" impl_least] u c
    unfolding blk by simp
  have g: "concat (map
        (\<lambda>p. selected_of impl_least (result_with True False [1])
               (if Property_ID p = ''A'' then [Var 1 BoolVar]
                else slice_of (spec_index scenario_dup) p) p)
        (Properties scenario_dup)) =
       [\<lparr>Property = ''A'', RenovationID = ''r1'', Cost = Finite 5, Effect = Finite 3\<rparr>,
        \<lparr>Property = ''A'', RenovationID = ''r2'', Cost = Finite 4, Effect = Finite 5\<rparr>]"
    by (simp add: Properties_scenario_dup selected_of_def is_assigned_result_with
        make_assignment_def r1_def r2_def)
  show ?thesis
    using m feas blk f unfolding g by (simp add: spec_index_scenario_dup)
qed






end
